theory Spec2Isabelle
  imports Complex_Main
begin

section \<open>Data model (src/src/App.tsx, type definitions)\<close>

text \<open>
  The two interfaces of App.tsx. Both have a field \<open>id\<close>, which is also the name of
  HOL's identity function, so the field carries the interface's name as a suffix.
  A task id is a JavaScript \<open>number\<close> that only ever holds the counter \<open>nextId\<close>
  (1, 2, 3, ...): it is modelled as an unbounded \<open>int\<close>. The id of a log entry is
  \<open>Date.now() + Math.random()\<close>, a fractional number supplied by the environment.
\<close>

record Task =
  id_Task :: int
  description :: string
  completed :: bool

record LogEntry =
  id_LogEntry :: real
  timestamp :: string
  message :: string

text \<open>
  What \<open>logOutput\<close> reads from the environment when it builds an entry: the value of
  \<open>Date.now() + Math.random()\<close> and of \<open>new Date().toLocaleTimeString()\<close>.
\<close>

record stamp =
  stamp_id :: real
  stamp_time :: string

text \<open>The three \<open>useState\<close> cells of the hook \<open>useTaskManager\<close>.\<close>

record TaskManager =
  tasks :: "Task list"
  nextId :: int
  logs :: "LogEntry list"

section \<open>React state cells\<close>

text \<open>
  A call of a state setter does not change the variables \<open>tasks\<close>, \<open>nextId\<close> and
  \<open>logs\<close> that the running function sees: those are constants of the render in which
  the function was created. The setter puts an update into the component's queue; React
  applies the queued updates, in order, when it renders the component next, and the
  functions created by that render see the new values.

  An update is an updater function from the previous value to the next one
  (\<open>setTasks(prev => ...)\<close>); the value form (\<open>setTasks([])\<close>) is the constant updater.
\<close>

datatype update =
  SetTasks "Task list \<Rightarrow> Task list"
| SetNextId "int \<Rightarrow> int"
| SetLogs "LogEntry list \<Rightarrow> LogEntry list"

record hook =
  rendered :: TaskManager
  queue :: "update list"

fun apply_update :: "update \<Rightarrow> TaskManager \<Rightarrow> TaskManager" where
  "apply_update (SetTasks f) s = s\<lparr>tasks := f (tasks s)\<rparr>"
| "apply_update (SetNextId f) s = s\<lparr>nextId := f (nextId s)\<rparr>"
| "apply_update (SetLogs f) s = s\<lparr>logs := f (logs s)\<rparr>"

definition dispatch :: "update \<Rightarrow> hook \<Rightarrow> hook" where
  "dispatch u h = h\<lparr>queue := queue h @ [u]\<rparr>"

definition setTasks :: "(Task list \<Rightarrow> Task list) \<Rightarrow> hook \<Rightarrow> hook" where
  "setTasks f = dispatch (SetTasks f)"

definition setNextId :: "(int \<Rightarrow> int) \<Rightarrow> hook \<Rightarrow> hook" where
  "setNextId f = dispatch (SetNextId f)"

definition setLogs :: "(LogEntry list \<Rightarrow> LogEntry list) \<Rightarrow> hook \<Rightarrow> hook" where
  "setLogs f = dispatch (SetLogs f)"

text \<open>The next render: the queued updates are applied in the order of their calls.\<close>

definition render :: "hook \<Rightarrow> hook" where
  "render h = \<lparr>rendered = fold apply_update (queue h) (rendered h), queue = []\<rparr>"

text \<open>The state the session shows once React has processed what is queued.\<close>

definition state_of :: "hook \<Rightarrow> TaskManager" where
  "state_of h = rendered (render h)"

text \<open>The first render: \<open>useState([])\<close>, \<open>useState(1)\<close>, \<open>useState([])\<close>.\<close>

definition initial :: TaskManager where
  "initial = \<lparr>tasks = [], nextId = 1, logs = []\<rparr>"

definition mount :: hook where
  "mount = \<lparr>rendered = initial, queue = []\<rparr>"

section \<open>Template literals\<close>

text \<open>\<open>`Task ${id} done.`\<close> prints the number in decimal, with a minus sign when negative.\<close>

definition digit_char :: "nat \<Rightarrow> char" where
  "digit_char n = ''0123456789'' ! n"

fun digits :: "nat \<Rightarrow> string" where
  "digits n = (if n < 10 then [digit_char n] else digits (n div 10) @ [digit_char (n mod 10)])"

declare digits.simps [simp del]

definition toString :: "int \<Rightarrow> string" where
  "toString i = (if i < 0 then CHR ''-'' # digits (nat (- i)) else digits (nat i))"

section \<open>The operations of useTaskManager\<close>

text \<open>
  \<open>logOutput\<close> (lines 61-68) builds an entry from the environment and the message and
  queues its addition at the end of \<open>logs\<close>.
\<close>

definition logOutput :: "stamp \<Rightarrow> string \<Rightarrow> hook \<Rightarrow> hook" where
  "logOutput env msg h =
     (let entry = \<lparr>id_LogEntry = stamp_id env, timestamp = stamp_time env, message = msg\<rparr>
      in setLogs (\<lambda>prev. prev @ [entry]) h)"

text \<open>
  \<open>addTask\<close> (lines 71-76). The id of the new task is the variable \<open>nextId\<close> of the
  render in which this \<open>addTask\<close> was created: the first argument, \<open>scope\<close>, is that
  render's state. The counter itself is advanced by a queued updater.
\<close>

definition addTask :: "TaskManager \<Rightarrow> stamp \<Rightarrow> string \<Rightarrow> hook \<Rightarrow> hook" where
  "addTask scope env desc h =
     (let newTask = \<lparr>id_Task = nextId scope, description = desc, completed = False\<rparr>;
          h1 = setTasks (\<lambda>prev. prev @ [newTask]) h;
          h2 = setNextId (\<lambda>prev. prev + 1) h1
      in logOutput env (''Task added: '' @ desc) h2)"

text \<open>
  The updater that \<open>completeTask\<close> hands to \<open>setTasks\<close> (lines 81-87). Besides the new
  list it has an effect on the local variable \<open>found\<close> of the enclosing call: the second
  component is the value \<open>found\<close> has once the updater has run.
\<close>

definition completeTask_updater :: "int \<Rightarrow> Task list \<Rightarrow> Task list \<times> bool" where
  "completeTask_updater i prev =
     (map (\<lambda>t. if id_Task t = i then t\<lparr>completed := True\<rparr> else t) prev,
      list_ex (\<lambda>t. id_Task t = i) prev)"

text \<open>
  What a call returns to its caller: \<open>completeTask\<close> has no \<open>return\<close> statement.
\<close>

datatype retval = Undefined | Boolean bool

text \<open>
  \<open>completeTask\<close> (lines 79-94) reads \<open>found\<close> right after \<open>setTasks\<close> returns. The
  updater has run by then only if React evaluated it inside the \<open>setTasks\<close> call, which
  React does only when the component has no update pending (it then computes the next
  state at once, from the last rendered one), and not always then: the first argument,
  \<open>eager\<close>, says whether React does. In every other case the updater runs at the next
  render, after \<open>found\<close> has been read as \<open>false\<close>.
\<close>

definition completeTask :: "bool \<Rightarrow> stamp \<Rightarrow> int \<Rightarrow> hook \<Rightarrow> retval \<times> hook" where
  "completeTask eager env i h =
     (let found = (if eager \<and> queue h = []
                   then snd (completeTask_updater i (tasks (rendered h)))
                   else False);
          h1 = setTasks (\<lambda>prev. fst (completeTask_updater i prev)) h;
          h2 = (if found then logOutput env (''Task '' @ toString i @ '' done.'') h1
                else logOutput env ''ID not found.'' h1)
      in (Undefined, h2))"

text \<open>\<open>resetSystem\<close> (lines 97-102).\<close>

definition resetSystem :: "stamp \<Rightarrow> hook \<Rightarrow> hook" where
  "resetSystem env h =
     (let h1 = setTasks (\<lambda>prev. []) h;
          h2 = setNextId (\<lambda>prev. 1) h1;
          h3 = setLogs (\<lambda>prev. []) h2
      in logOutput env ''System reset.'' h3)"

section \<open>The callers in App\<close>

text \<open>
  The startup effect (lines 240-249) has the dependency list \<open>[]\<close>: it runs once, after
  the first render, and its timer callback calls the \<open>logOutput\<close> and \<open>addTask\<close> of that
  first render, whose \<open>nextId\<close> is the initial one.
\<close>

definition startup :: "stamp \<Rightarrow> stamp \<Rightarrow> stamp \<Rightarrow> hook \<Rightarrow> hook" where
  "startup e1 e2 e3 h =
     (let h1 = logOutput e1 ''Initializing TaskManager...'' h;
          h2 = addTask initial e2 ''Refactor Legacy Code'' h1
      in addTask initial e3 ''Upload Multiple Files'' h2)"

text \<open>
  A call made by a handler of the latest render, alone in its event, and the render that
  follows it: this is how the form calls \<open>addTask\<close> (line 254, when the input is not
  blank), the button "Mark Complete" calls \<open>completeTask\<close> (line 330) and the menu
  entry "Exit" calls \<open>resetSystem\<close> (line 268). The handler's \<open>nextId\<close> is the rendered one.
\<close>

definition addTask_event :: "stamp \<Rightarrow> string \<Rightarrow> hook \<Rightarrow> hook" where
  "addTask_event env desc h = render (addTask (rendered h) env desc h)"

definition completeTask_event :: "bool \<Rightarrow> stamp \<Rightarrow> int \<Rightarrow> hook \<Rightarrow> hook" where
  "completeTask_event eager env i h = render (snd (completeTask eager env i h))"

definition resetSystem_event :: "stamp \<Rightarrow> hook \<Rightarrow> hook" where
  "resetSystem_event env h = render (resetSystem env h)"

text \<open>Any number of submitted forms, one event each.\<close>

fun addTask_events :: "(stamp \<times> string) list \<Rightarrow> hook \<Rightarrow> hook" where
  "addTask_events [] h = h"
| "addTask_events (x # xs) h = addTask_events xs (addTask_event (fst x) (snd x) h)"

text \<open>A session driven by such events only.\<close>

datatype call =
  AddTask stamp string
| CompleteTask bool stamp int
| ResetSystem stamp

fun call_event :: "call \<Rightarrow> hook \<Rightarrow> hook" where
  "call_event (AddTask env desc) h = addTask_event env desc h"
| "call_event (CompleteTask eager env i) h = completeTask_event eager env i h"
| "call_event (ResetSystem env) h = resetSystem_event env h"

text \<open>The two invariants of the specification on task ids, as a check on a state.\<close>

definition ids_ok :: "TaskManager \<Rightarrow> bool" where
  "ids_ok s = (distinct (map id_Task (tasks s)) \<and> list_all (\<lambda>t. id_Task t < nextId s) (tasks s))"

section \<open>The tie-break as the specification words it\<close>

text \<open>
  Section 4.1 of the specification: "if multiple tasks somehow share an id, update the
  first match in iteration order only". This function follows those words; it is not in
  the source and is only compared with what the source does.
\<close>

fun completeTask_first_match_spec :: "int \<Rightarrow> Task list \<Rightarrow> Task list" where
  "completeTask_first_match_spec i [] = []"
| "completeTask_first_match_spec i (t # ts) =
     (if id_Task t = i then t\<lparr>completed := True\<rparr> # ts
      else t # completeTask_first_match_spec i ts)"

section \<open>Concrete sessions\<close>

text \<open>Readings of the clock, one per log entry.\<close>

definition clock :: "nat \<Rightarrow> stamp" where
  "clock n = \<lparr>stamp_id = 1700000000000 + real n + 1 / 2, stamp_time = ''10:00:00 AM''\<rparr>"

text \<open>The page after its startup effect has run and React has rendered.\<close>

definition seeded :: hook where
  "seeded = render (startup (clock 0) (clock 1) (clock 2) mount)"

text \<open>The same page after "Exit" and one submitted task.\<close>

definition one_task :: hook where
  "one_task = addTask_event (clock 4) ''A'' (resetSystem_event (clock 3) seeded)"

section \<open>How the queue is processed\<close>

lemma state_of_dispatch: "state_of (dispatch u h) = apply_update u (state_of h)"
  by (simp add: state_of_def render_def dispatch_def)

lemma state_of_render: "state_of (render h) = state_of h"
  by (simp add: state_of_def render_def)

lemma state_of_idle: "queue h = [] \<Longrightarrow> state_of h = rendered h"
  by (simp add: state_of_def render_def)

lemma queue_render: "queue (render h) = []"
  by (simp add: render_def)

lemma state_of_logOutput:
  "state_of (logOutput env msg h) =
     (state_of h)\<lparr>logs := logs (state_of h) @
        [\<lparr>id_LogEntry = stamp_id env, timestamp = stamp_time env, message = msg\<rparr>]\<rparr>"
  by (simp add: logOutput_def setLogs_def state_of_dispatch)

lemma state_of_addTask:
  "state_of (addTask scope env desc h) =
     \<lparr>tasks = tasks (state_of h) @
        [\<lparr>id_Task = nextId scope, description = desc, completed = False\<rparr>],
      nextId = nextId (state_of h) + 1,
      logs = logs (state_of h) @
        [\<lparr>id_LogEntry = stamp_id env, timestamp = stamp_time env,
          message = ''Task added: '' @ desc\<rparr>]\<rparr>"
  by (simp add: addTask_def setTasks_def setNextId_def state_of_logOutput state_of_dispatch)

lemma state_of_resetSystem:
  "state_of (resetSystem env h) =
     \<lparr>tasks = [], nextId = 1,
      logs = [\<lparr>id_LogEntry = stamp_id env, timestamp = stamp_time env,
               message = ''System reset.''\<rparr>]\<rparr>"
  by (simp add: resetSystem_def setTasks_def setNextId_def setLogs_def
      state_of_logOutput state_of_dispatch)

lemma state_of_completeTask:
  "state_of (snd (completeTask eager env i h)) =
     (state_of h)\<lparr>
       tasks := map (\<lambda>t. if id_Task t = i then t\<lparr>completed := True\<rparr> else t)
                  (tasks (state_of h)),
       logs := logs (state_of h) @
         [\<lparr>id_LogEntry = stamp_id env, timestamp = stamp_time env,
           message = (if eager \<and> queue h = [] \<and> list_ex (\<lambda>t. id_Task t = i) (tasks (rendered h))
                      then ''Task '' @ toString i @ '' done.'' else ''ID not found.'')\<rparr>]\<rparr>"
  by (simp add: completeTask_def Let_def completeTask_updater_def setTasks_def
      state_of_logOutput state_of_dispatch)

lemma map_complete_no_match:
  "\<not> list_ex (\<lambda>t. id_Task t = i) ts \<Longrightarrow>
     map (\<lambda>t. if id_Task t = i then t\<lparr>completed := True\<rparr> else t) ts = ts"
  by (induction ts) simp_all

lemma rendered_addTask_event:
  "queue h = [] \<Longrightarrow>
     rendered (addTask_event env desc h) =
       \<lparr>tasks = tasks (rendered h) @
          [\<lparr>id_Task = nextId (rendered h), description = desc, completed = False\<rparr>],
        nextId = nextId (rendered h) + 1,
        logs = logs (rendered h) @
          [\<lparr>id_LogEntry = stamp_id env, timestamp = stamp_time env,
            message = ''Task added: '' @ desc\<rparr>]\<rparr>"
  using state_of_addTask [of "rendered h" env desc h]
  by (simp add: addTask_event_def state_of_def [symmetric] state_of_idle)

lemma rendered_resetSystem_event:
  "rendered (resetSystem_event env h) =
     \<lparr>tasks = [], nextId = 1,
      logs = [\<lparr>id_LogEntry = stamp_id env, timestamp = stamp_time env,
               message = ''System reset.''\<rparr>]\<rparr>"
  using state_of_resetSystem [of env h] by (simp add: resetSystem_event_def state_of_def)

lemma queue_addTask_event: "queue (addTask_event env desc h) = []"
  by (simp add: addTask_event_def render_def)

lemma queue_resetSystem_event: "queue (resetSystem_event env h) = []"
  by (simp add: resetSystem_event_def render_def)

lemma rendered_seeded:
  "rendered seeded =
     \<lparr>tasks = [\<lparr>id_Task = 1, description = ''Refactor Legacy Code'', completed = False\<rparr>,
               \<lparr>id_Task = 1, description = ''Upload Multiple Files'', completed = False\<rparr>],
      nextId = 3,
      logs = [\<lparr>id_LogEntry = stamp_id (clock 0), timestamp = stamp_time (clock 0),
               message = ''Initializing TaskManager...''\<rparr>,
              \<lparr>id_LogEntry = stamp_id (clock 1), timestamp = stamp_time (clock 1),
               message = ''Task added: Refactor Legacy Code''\<rparr>,
              \<lparr>id_LogEntry = stamp_id (clock 2), timestamp = stamp_time (clock 2),
               message = ''Task added: Upload Multiple Files''\<rparr>]\<rparr>"
  by (simp add: seeded_def state_of_def [symmetric] startup_def state_of_addTask
      state_of_logOutput state_of_idle mount_def initial_def)

lemma queue_seeded: "queue seeded = []"
  by (simp add: seeded_def render_def)

lemma rendered_one_task:
  "rendered one_task =
     \<lparr>tasks = [\<lparr>id_Task = 1, description = ''A'', completed = False\<rparr>],
      nextId = 2,
      logs = [\<lparr>id_LogEntry = stamp_id (clock 3), timestamp = stamp_time (clock 3),
               message = ''System reset.''\<rparr>,
              \<lparr>id_LogEntry = stamp_id (clock 4), timestamp = stamp_time (clock 4),
               message = ''Task added: A''\<rparr>]\<rparr>"
  by (simp add: one_task_def rendered_addTask_event rendered_resetSystem_event queue_resetSystem_event)

lemma queue_one_task: "queue one_task = []"
  by (simp add: one_task_def queue_addTask_event)

lemma toString_1: "toString 1 = ''1''"
  by (simp add: toString_def digits.simps digit_char_def)

section \<open>resetSystem and logOutput\<close>

text \<open>
  Claim C3. After \<open>resetSystem()\<close>, from any session state (whatever was rendered and
  whatever is still queued), the task sequence is empty, \<open>nextId\<close> is 1, and \<open>logs\<close> holds
  exactly one entry, whose message is "System reset.".
\<close>

theorem resetSystem_result:
  "tasks (state_of (resetSystem env h)) = [] \<and>
   nextId (state_of (resetSystem env h)) = 1 \<and>
   length (logs (state_of (resetSystem env h))) = 1 \<and>
   map message (logs (state_of (resetSystem env h))) = [''System reset.'']"
  by (simp add: state_of_resetSystem)

text \<open>
  Claim C10. For every session state and every message text, \<open>logOutput(message)\<close>
  changes only \<open>logs\<close>, by one entry at its end whose message is the given text; the task
  sequence and \<open>nextId\<close> are as before, and so is everything the current render shows.
\<close>

theorem logOutput_only_logs:
  "tasks (state_of (logOutput env msg h)) = tasks (state_of h) \<and>
   nextId (state_of (logOutput env msg h)) = nextId (state_of h) \<and>
   butlast (logs (state_of (logOutput env msg h))) = logs (state_of h) \<and>
   message (last (logs (state_of (logOutput env msg h)))) = msg \<and>
   length (logs (state_of (logOutput env msg h))) = length (logs (state_of h)) + 1 \<and>
   rendered (logOutput env msg h) = rendered h"
  by (simp add: state_of_logOutput) (simp add: logOutput_def setLogs_def dispatch_def)

section \<open>completeTask on an id that no task has\<close>

text \<open>
  Claim C7. For every session state and every id that no task of the session has,
  \<open>completeTask(id)\<close> leaves the task sequence as it is (every task's id, description and
  completed flag), leaves \<open>nextId\<close> as it is, and appends exactly one log entry, with the
  message "ID not found.". This holds whether or not React evaluates the updater at once.
\<close>

theorem completeTask_no_match:
  assumes "\<not> list_ex (\<lambda>t. id_Task t = i) (tasks (state_of h))"
  shows "state_of (snd (completeTask eager env i h)) =
           (state_of h)\<lparr>logs := logs (state_of h) @
              [\<lparr>id_LogEntry = stamp_id env, timestamp = stamp_time env,
                message = ''ID not found.''\<rparr>]\<rparr>"
proof -
  have found: "\<not> (eager \<and> queue h = [] \<and> list_ex (\<lambda>t. id_Task t = i) (tasks (rendered h)))"
    using assms by (auto simp: state_of_idle)
  have same: "map (\<lambda>t. if id_Task t = i then t\<lparr>completed := True\<rparr> else t) (tasks (state_of h))
                = tasks (state_of h)"
    using assms by (rule map_complete_no_match)
  show ?thesis
    unfolding state_of_completeTask same using found by simp
qed

theorem completeTask_no_match_witness:
  "map id_Task (tasks (state_of seeded)) = [1, 1] \<and>
   tasks (state_of (snd (completeTask True (clock 3) 99 seeded))) = tasks (state_of seeded) \<and>
   nextId (state_of (snd (completeTask True (clock 3) 99 seeded))) = 3 \<and>
   map message (logs (state_of (snd (completeTask True (clock 3) 99 seeded)))) =
     [''Initializing TaskManager...'', ''Task added: Refactor Legacy Code'',
      ''Task added: Upload Multiple Files'', ''ID not found.'']"
proof -
  have st: "state_of seeded = rendered seeded"
    by (simp add: state_of_idle queue_seeded)
  have "\<not> list_ex (\<lambda>t. id_Task t = 99) (tasks (state_of seeded))"
    by (simp add: st rendered_seeded)
  from completeTask_no_match [OF this, of True "clock 3"] show ?thesis
    by (simp add: st rendered_seeded)
qed

section \<open>One log entry for each call\<close>

text \<open>
  Claim C9. Each call of \<open>addTask\<close> and of \<open>completeTask\<close> makes \<open>logs\<close> longer by exactly
  one entry, and each call of \<open>resetSystem\<close> leaves \<open>logs\<close> with exactly one entry. No
  operation but \<open>resetSystem\<close> removes a log entry or a task: after \<open>addTask\<close>,
  \<open>completeTask\<close> and \<open>logOutput\<close> the earlier log entries are all there, in place, and so
  are the earlier tasks (after \<open>completeTask\<close> with the same ids and descriptions).
\<close>

theorem every_call_logs_once:
  "length (logs (state_of (addTask scope env desc h))) = length (logs (state_of h)) + 1 \<and>
   length (logs (state_of (snd (completeTask eager env i h)))) = length (logs (state_of h)) + 1 \<and>
   length (logs (state_of (resetSystem env h))) = 1 \<and>
   butlast (logs (state_of (addTask scope env desc h))) = logs (state_of h) \<and>
   butlast (logs (state_of (snd (completeTask eager env i h)))) = logs (state_of h) \<and>
   butlast (logs (state_of (logOutput env msg h))) = logs (state_of h) \<and>
   butlast (tasks (state_of (addTask scope env desc h))) = tasks (state_of h) \<and>
   length (tasks (state_of (addTask scope env desc h))) = length (tasks (state_of h)) + 1 \<and>
   map id_Task (tasks (state_of (snd (completeTask eager env i h)))) =
     map id_Task (tasks (state_of h)) \<and>
   map description (tasks (state_of (snd (completeTask eager env i h)))) =
     map description (tasks (state_of h)) \<and>
   tasks (state_of (logOutput env msg h)) = tasks (state_of h)"
  by (simp add: state_of_addTask state_of_completeTask state_of_resetSystem
      state_of_logOutput o_def if_distrib cong: if_cong)

section \<open>The log entry of completeTask\<close>

text \<open>
  What \<open>completeTask\<close> logs, in general: "Task id done." when React ran the updater
  inside \<open>setTasks\<close> and a task matched, "ID not found." in every other case.
\<close>

lemma completeTask_message_eager:
  "queue h = [] \<Longrightarrow>
     message (last (logs (state_of (snd (completeTask True env i h))))) =
       (if list_ex (\<lambda>t. id_Task t = i) (tasks (rendered h))
        then ''Task '' @ toString i @ '' done.'' else ''ID not found.'')"
  by (simp add: state_of_completeTask)

lemma completeTask_message_deferred:
  "\<not> (eager \<and> queue h = []) \<Longrightarrow>
     message (last (logs (state_of (snd (completeTask eager env i h))))) = ''ID not found.''"
  by (auto simp: state_of_completeTask)

text \<open>
  Claim C1 says that \<open>completeTask(id)\<close> logs "Task id done." exactly when a task has
  that id. The code reads \<open>found\<close> before React has run the updater that sets it, unless
  React runs the updater at once. On the session \<open>one_task\<close>, whose only task has id 1,
  the button "Mark Complete" with the updater left for the render marks the task
  completed and logs "ID not found.".
\<close>

theorem completeTask_logs_not_found_on_match:
  "map id_Task (tasks (rendered one_task)) = [1] \<and>
   map completed (tasks (rendered (completeTask_event False (clock 5) 1 one_task))) = [True] \<and>
   map message (logs (rendered (completeTask_event False (clock 5) 1 one_task))) =
     [''System reset.'', ''Task added: A'', ''ID not found.'']"
  by (simp add: completeTask_event_def state_of_def [symmetric] state_of_completeTask
      state_of_idle queue_one_task rendered_one_task)

text \<open>
  Claim C8 says that a second \<open>completeTask(id)\<close> on the same id leaves the task
  completed and still appends a "done" entry. When the two calls are made one after the
  other, the first has queued an update, so React leaves the second updater for the
  render: the second call logs "ID not found.", even where the first one logged "done".
  The same happens with a render between the calls when React leaves both updaters for
  the render.
\<close>

theorem completeTask_again_logs_not_found:
  "map completed (tasks (state_of (snd (completeTask True (clock 6) 1
       (snd (completeTask True (clock 5) 1 one_task)))))) = [True] \<and>
   map message (logs (state_of (snd (completeTask True (clock 6) 1
       (snd (completeTask True (clock 5) 1 one_task)))))) =
     [''System reset.'', ''Task added: A'', ''Task 1 done.'', ''ID not found.''] \<and>
   map message (logs (rendered (completeTask_event False (clock 6) 1
       (completeTask_event False (clock 5) 1 one_task)))) =
     [''System reset.'', ''Task added: A'', ''ID not found.'', ''ID not found.'']"
proof -
  have q: "queue (snd (completeTask True (clock 5) 1 one_task)) \<noteq> []"
    by (simp add: completeTask_def Let_def logOutput_def setLogs_def setTasks_def dispatch_def)
  have a: "state_of (snd (completeTask True (clock 6) 1
       (snd (completeTask True (clock 5) 1 one_task)))) =
     \<lparr>tasks = [\<lparr>id_Task = 1, description = ''A'', completed = True\<rparr>], nextId = 2,
      logs = [\<lparr>id_LogEntry = stamp_id (clock 3), timestamp = stamp_time (clock 3),
               message = ''System reset.''\<rparr>,
              \<lparr>id_LogEntry = stamp_id (clock 4), timestamp = stamp_time (clock 4),
               message = ''Task added: A''\<rparr>,
              \<lparr>id_LogEntry = stamp_id (clock 5), timestamp = stamp_time (clock 5),
               message = ''Task 1 done.''\<rparr>,
              \<lparr>id_LogEntry = stamp_id (clock 6), timestamp = stamp_time (clock 6),
               message = ''ID not found.''\<rparr>]\<rparr>"
    using q
    by (simp add: state_of_completeTask [of True "clock 6"] state_of_completeTask [of True "clock 5"]
        state_of_idle queue_one_task rendered_one_task toString_1)
  have b: "map message (logs (rendered (completeTask_event False (clock 6) 1
       (completeTask_event False (clock 5) 1 one_task)))) =
     [''System reset.'', ''Task added: A'', ''ID not found.'', ''ID not found.'']"
    by (simp add: completeTask_event_def state_of_def [symmetric] state_of_render state_of_completeTask
        state_of_idle queue_one_task rendered_one_task)
  show ?thesis using a b by simp
qed

section \<open>The ids that addTask assigns\<close>

text \<open>
  When every \<open>addTask\<close> is called by the form of the latest render, one call for each
  event, the ids are consecutive and \<open>nextId\<close> is one more than the last.
\<close>

lemma addTask_events_ids:
  "queue h = [] \<Longrightarrow>
     nextId (rendered (addTask_events xs h)) = nextId (rendered h) + int (length xs) \<and>
     map id_Task (tasks (rendered (addTask_events xs h))) =
       map id_Task (tasks (rendered h)) @
       map (\<lambda>k. nextId (rendered h) + int k) [0..<length xs]"
proof (induction xs arbitrary: h)
  case Nil
  then show ?case by simp
next
  case (Cons x xs)
  have "queue (addTask_event (fst x) (snd x) h) = []"
    by (rule queue_addTask_event)
  from Cons.IH [OF this] show ?case
    using Cons.prems by (simp add: rendered_addTask_event map_upt_Suc del: upt_Suc)
qed

text \<open>
  A session that is driven from the first render by the page's own handlers only, in any
  number and order, keeps the two invariants: the ids are pairwise distinct and below
  \<open>nextId\<close>.
\<close>

lemma queue_completeTask_event: "queue (completeTask_event eager env i h) = []"
  by (simp add: completeTask_event_def render_def)

lemma tasks_completeTask_event:
  "queue h = [] \<Longrightarrow>
     tasks (rendered (completeTask_event eager env i h)) =
       map (\<lambda>t. if id_Task t = i then t\<lparr>completed := True\<rparr> else t) (tasks (rendered h))"
  by (simp add: completeTask_event_def state_of_def [symmetric] state_of_completeTask state_of_idle)

lemma nextId_completeTask_event:
  "queue h = [] \<Longrightarrow> nextId (rendered (completeTask_event eager env i h)) = nextId (rendered h)"
  by (simp add: completeTask_event_def state_of_def [symmetric] state_of_completeTask state_of_idle)

lemma ids_ok_call_event:
  assumes "queue h = []" and "ids_ok (rendered h)"
  shows "queue (call_event c h) = [] \<and> ids_ok (rendered (call_event c h))"
proof (cases c)
  case (AddTask env desc)
  have "list_all (\<lambda>t. id_Task t < nextId (rendered h) + 1) (tasks (rendered h))"
    using assms(2) by (auto simp: ids_ok_def list_all_iff)
  moreover have "nextId (rendered h) \<notin> id_Task ` set (tasks (rendered h))"
    using assms(2) by (auto simp: ids_ok_def list_all_iff)
  ultimately show ?thesis
    using assms AddTask by (simp add: queue_addTask_event rendered_addTask_event ids_ok_def)
next
  case (CompleteTask eager env i)
  let ?f = "\<lambda>t. if id_Task t = i then t\<lparr>completed := True\<rparr> else t"
  have ids: "map id_Task (map ?f (tasks (rendered h))) = map id_Task (tasks (rendered h))"
    by (induction "tasks (rendered h)") auto
  have lt: "list_all (\<lambda>t. id_Task t < nextId (rendered h)) (map ?f (tasks (rendered h)))"
    using assms(2) by (auto simp: ids_ok_def list_all_iff)
  have "ids_ok (rendered (completeTask_event eager env i h))"
    unfolding ids_ok_def tasks_completeTask_event [OF assms(1)]
      nextId_completeTask_event [OF assms(1)] ids
    using assms(2) lt by (simp add: ids_ok_def)
  then show ?thesis
    using CompleteTask by (simp add: queue_completeTask_event)
next
  case (ResetSystem env)
  then show ?thesis
    by (simp add: queue_resetSystem_event rendered_resetSystem_event ids_ok_def)
qed

lemma ids_ok_calls:
  "queue h = [] \<Longrightarrow> ids_ok (rendered h) \<Longrightarrow>
     queue (fold call_event cs h) = [] \<and> ids_ok (rendered (fold call_event cs h))"
proof (induction cs arbitrary: h)
  case Nil
  then show ?case by simp
next
  case (Cons c cs)
  from ids_ok_call_event [OF Cons.prems, of c] Cons.IH [of "call_event c h"]
  show ?case by simp
qed

text \<open>From the first render on:\<close>

lemma ids_ok_from_mount: "ids_ok (rendered (fold call_event cs mount))"
  using ids_ok_calls [of mount cs] by (simp add: mount_def initial_def ids_ok_def)

text \<open>
  Claim C2 says that the i-th \<open>addTask\<close> call of any sequence of calls creates the task
  with id i. The startup effect of the page makes two calls from one timer callback:
  both read the \<open>nextId\<close> of the first render, so "Upload Multiple Files", the second
  task, gets the id 1 again, while the counter goes to 3. Right after the first call the
  \<open>nextId\<close> that the callers see is still 1.
\<close>

theorem startup_second_task_has_id_1:
  "tasks (state_of (startup (clock 0) (clock 1) (clock 2) mount)) =
     [\<lparr>id_Task = 1, description = ''Refactor Legacy Code'', completed = False\<rparr>,
      \<lparr>id_Task = 1, description = ''Upload Multiple Files'', completed = False\<rparr>] \<and>
   nextId (state_of (startup (clock 0) (clock 1) (clock 2) mount)) = 3 \<and>
   nextId (rendered (addTask initial (clock 1) ''Refactor Legacy Code'' mount)) = 1 \<and>
   map id_Task (tasks (state_of (addTask initial (clock 2) ''B''
       (addTask initial (clock 1) ''A'' mount)))) = [1, 1]"
proof -
  have "nextId (rendered (addTask initial (clock 1) ''Refactor Legacy Code'' mount)) = 1"
    by (simp add: addTask_def Let_def logOutput_def setLogs_def setNextId_def setTasks_def
        dispatch_def mount_def initial_def)
  then show ?thesis
    by (simp add: startup_def state_of_addTask state_of_logOutput state_of_idle
        mount_def initial_def)
qed

text \<open>
  Claim C4 says that in every reachable session the task ids are pairwise distinct. The
  session that the page itself reaches by its startup effect has two tasks with the id 1
  (and \<open>nextId\<close> = 3, above both).
\<close>

theorem startup_task_ids_not_distinct:
  "\<not> distinct (map id_Task (tasks (rendered seeded))) \<and> nextId (rendered seeded) = 3"
  by (simp add: rendered_seeded)

section \<open>Several tasks with one id\<close>

text \<open>
  Claim C5, as stated: where several tasks share an id, \<open>completeTask(id)\<close> completes
  the first of them only. It fails on the session \<open>seeded\<close>, whose two tasks have the
  id 1 and are not completed: \<open>completeTask(1)\<close> completes both, where the first-match
  rule of the specification would leave the second one as it was.
\<close>

theorem completeTask_first_only_counterexample:
  "map id_Task (tasks (rendered seeded)) = [1, 1] \<and>
   map completed (tasks (rendered seeded)) = [False, False] \<and>
   map completed (tasks (rendered (completeTask_event True (clock 3) 1 seeded))) = [True, True] \<and>
   map completed (tasks (rendered (completeTask_event False (clock 3) 1 seeded))) = [True, True] \<and>
   map completed (completeTask_first_match_spec 1 (tasks (rendered seeded))) = [True, False]"
  by (simp add: completeTask_event_def state_of_def [symmetric] state_of_completeTask
      state_of_idle queue_seeded rendered_seeded)

text \<open>
  Claim C5, amended: \<open>completeTask(id)\<close> sets the completed flag of every task whose id
  is the given one, not of the first only, and leaves every other task, and the order and
  number of the tasks, as they were.
\<close>

theorem completeTask_completes_every_match:
  "tasks (state_of (snd (completeTask eager env i h))) =
     map (\<lambda>t. if id_Task t = i then t\<lparr>completed := True\<rparr> else t) (tasks (state_of h))"
  by (simp add: state_of_completeTask)

section \<open>What completeTask returns\<close>

text \<open>
  Claim C6, as stated: \<open>completeTask(id)\<close> returns a boolean that is true exactly when a
  task has that id. On the session \<open>seeded\<close> a task has the id 1, and the call
  \<open>completeTask(1)\<close> does not return true.
\<close>

theorem completeTask_returns_boolean_counterexample:
  "map id_Task (tasks (rendered seeded)) = [1, 1] \<and>
   fst (completeTask True (clock 3) 1 seeded) \<noteq> Boolean True"
  by (simp add: rendered_seeded completeTask_def Let_def)

text \<open>
  Claim C6, amended: for every id and every session state, \<open>completeTask(id)\<close> returns
  no value (\<open>undefined\<close>), whether or not a task has that id; and the log entry it
  appends is "Task id done." only if a task of the session has that id.
\<close>

theorem completeTask_returns_undefined:
  "fst (completeTask eager env i h) = Undefined \<and>
   (message (last (logs (state_of (snd (completeTask eager env i h))))) =
      ''Task '' @ toString i @ '' done.'' \<longrightarrow>
    list_ex (\<lambda>t. id_Task t = i) (tasks (state_of h)))"
proof -
  have r: "fst (completeTask eager env i h) = Undefined"
    by (simp add: completeTask_def Let_def)
  have l: "message (last (logs (state_of (snd (completeTask eager env i h))))) =
      ''Task '' @ toString i @ '' done.'' \<longrightarrow>
    list_ex (\<lambda>t. id_Task t = i) (tasks (state_of h))"
  proof (cases "eager \<and> queue h = [] \<and> list_ex (\<lambda>t. id_Task t = i) (tasks (rendered h))")
    case True
    then show ?thesis by (simp add: state_of_idle)
  next
    case False
    then have "message (last (logs (state_of (snd (completeTask eager env i h))))) =
        ''ID not found.''"
      by (simp add: state_of_completeTask)
    then show ?thesis by simp
  qed
  show ?thesis using r l by simp
qed

theorem completeTask_returns_undefined_witness:
  "fst (completeTask True (clock 5) 1 one_task) = Undefined \<and>
   message (last (logs (state_of (snd (completeTask True (clock 5) 1 one_task))))) =
     ''Task 1 done.'' \<and>
   list_ex (\<lambda>t. id_Task t = 1) (tasks (state_of one_task))"
proof -
  have m: "message (last (logs (state_of (snd (completeTask True (clock 5) 1 one_task))))) =
     ''Task '' @ toString 1 @ '' done.''"
    by (simp add: state_of_completeTask queue_one_task rendered_one_task)
  from completeTask_returns_undefined [of True "clock 5" 1 one_task] m
  show ?thesis by (simp add: toString_1)
qed

end
